theory Spec2Isabelle
  imports Main "HOL-Library.Sublist"
begin

section \<open>Python strings\<close>

text \<open>
  A Python \<open>str\<close> is a sequence of Unicode code points, so a string is a list of code
  points here (a \<open>char\<close> of HOL is one byte and cannot hold U+03B1).  \<open>py\<close> turns an
  ASCII literal into such a string.
\<close>

type_synonym pystr = "nat list"

definition py :: "string \<Rightarrow> pystr" where
  "py s = map of_char s"

text \<open>
  \<open>str.replace(old, new)\<close>: the occurrences of \<open>old\<close> are replaced from the left and do
  not overlap; an empty \<open>old\<close> matches before every code point and at the end.
\<close>

function py_replace :: "pystr \<Rightarrow> pystr \<Rightarrow> pystr \<Rightarrow> pystr" where
  "py_replace old new [] = (if old = [] then new else [])"
| "py_replace old new (c # cs) =
     (if old = [] then new @ c # py_replace old new cs
      else if prefix old (c # cs) then new @ py_replace old new (drop (length old) (c # cs))
      else c # py_replace old new cs)"
  by pat_completeness auto
termination
  by (relation "measure (\<lambda>(old, new, s). length s)") auto

declare py_replace.simps(2) [simp del]

text \<open>
  \<open>str.isspace\<close> for one code point, which is what \<open>str.split()\<close> without a separator
  splits at: the ASCII controls U+0009..U+000D and U+001C..U+001F, the space, and the
  Unicode separators.
\<close>

definition isspace :: "nat \<Rightarrow> bool" where
  "isspace c = (c \<in> {9, 10, 11, 12, 13, 28, 29, 30, 31, 32, 133, 160, 5760,
                      8192, 8193, 8194, 8195, 8196, 8197, 8198, 8199, 8200, 8201, 8202,
                      8232, 8233, 8239, 8287, 12288})"

text \<open>
  \<open>str.split()\<close>: skip the white space, take the word up to the next white space, go on
  behind it.  Leading and trailing white space gives no empty word.
\<close>

function py_split :: "pystr \<Rightarrow> pystr list" where
  "py_split s =
     (let t = dropWhile isspace s
      in if t = [] then []
         else takeWhile (\<lambda>x. \<not> isspace x) t # py_split (dropWhile (\<lambda>x. \<not> isspace x) t))"
  by pat_completeness auto
termination
proof (relation "measure length")
  show "wf (measure length)" by simp
next
  fix s t :: pystr
  assume t: "t = dropWhile isspace s" and ne: "t \<noteq> []"
  obtain c cs where cs: "t = c # cs"
    using ne by (cases t) auto
  have "\<not> isspace c"
    using hd_dropWhile [of isspace s] t cs by (metis list.sel(1) list.distinct(1))
  then have "length (dropWhile (\<lambda>x. \<not> isspace x) t) \<le> length cs"
    using length_dropWhile_le [of "\<lambda>x. \<not> isspace x" cs] cs by simp
  moreover have "length t \<le> length s"
    using t length_dropWhile_le [of isspace s] by simp
  ultimately show "(dropWhile (\<lambda>x. \<not> isspace x) t, s) \<in> measure length"
    using cs by simp
qed

declare py_split.simps [simp del]

text \<open>\<open>sep.join(words)\<close>.\<close>

fun py_join :: "pystr \<Rightarrow> pystr list \<Rightarrow> pystr" where
  "py_join sep [] = []"
| "py_join sep [w] = w"
| "py_join sep (w # v # ws) = w @ sep @ py_join sep (v # ws)"

text \<open>\<open>pat in s\<close> on strings: \<open>pat\<close> occurs in \<open>s\<close> as a contiguous run, compared code
  point by code point (so by case).\<close>

fun py_in :: "pystr \<Rightarrow> pystr \<Rightarrow> bool" where
  "py_in pat [] = (pat = [])"
| "py_in pat (c # cs) = (prefix pat (c # cs) \<or> py_in pat cs)"

section \<open>constellation_data.py\<close>

text \<open>\<open>GREEK_MAP\<close>, in the order of the dictionary literal, which is the order in which
  \<open>items()\<close> yields it.\<close>

definition GREEK_MAP :: "(pystr \<times> pystr) list" where
  "GREEK_MAP =
    [([0x3b1], py ''Alpha''),
     ([0x3b2], py ''Beta''),
     ([0x3b3], py ''Gamma''),
     ([0x3b4], py ''Delta''),
     ([0x3b5], py ''Epsilon''),
     ([0x3b6], py ''Zeta''),
     ([0x3b7], py ''Eta''),
     ([0x3b8], py ''Theta''),
     ([0x3b9], py ''Iota''),
     ([0x3ba], py ''Kappa''),
     ([0x3bb], py ''Lambda''),
     ([0x3bc], py ''Mu''),
     ([0x3bd], py ''Nu''),
     ([0x3be], py ''Xi''),
     ([0x3bf], py ''Omicron''),
     ([0x3c0], py ''Pi''),
     ([0x3c1], py ''Rho''),
     ([0x3c3], py ''Sigma''),
     ([0x3c4], py ''Tau''),
     ([0x3c5], py ''Upsilon''),
     ([0x3c6], py ''Phi''),
     ([0x3c7], py ''Chi''),
     ([0x3c8], py ''Psi''),
     ([0x3c9], py ''Omega'')]"

text \<open>The loop \<open>for greek, english in GREEK_MAP.items(): name = name.replace(greek, english)\<close>
  over any table.\<close>

fun replace_all :: "(pystr \<times> pystr) list \<Rightarrow> pystr \<Rightarrow> pystr" where
  "replace_all [] name = name"
| "replace_all ((greek, english) # items) name =
     replace_all items (py_replace greek english name)"

definition normalize_name :: "pystr \<Rightarrow> pystr" where
  "normalize_name name = py_join (py '' '') (py_split (replace_all GREEK_MAP name))"

text \<open>
  An annotation of the service, as far as this module reads it: the pixel position
  (which the module only hands on, given here in whole pixels) and the alias names;
  \<open>names = None\<close> is a dictionary without the key \<open>names\<close>, for which
  \<open>star.get('names', [])\<close> is the empty list.
\<close>

record annotation =
  pixelx :: int
  pixely :: int
  names :: "pystr list option"

definition get_names :: "annotation \<Rightarrow> pystr list" where
  "get_names star = (case names star of None \<Rightarrow> [] | Some ns \<Rightarrow> ns)"

text \<open>The inner loop over the names of one annotation: does some name match?\<close>

fun name_matches :: "pystr \<Rightarrow> pystr list \<Rightarrow> bool" where
  "name_matches star_name_pattern [] = False"
| "name_matches star_name_pattern (name # rest) =
     (if py_in star_name_pattern (normalize_name name) then True
      else name_matches star_name_pattern rest)"

fun find_star_in_annotations :: "pystr \<Rightarrow> annotation list \<Rightarrow> annotation option" where
  "find_star_in_annotations star_name_pattern [] = None"
| "find_star_in_annotations star_name_pattern (star # annotations) =
     (if name_matches star_name_pattern (get_names star) then Some star
      else find_star_in_annotations star_name_pattern annotations)"

section \<open>Python values and exceptions\<close>

text \<open>
  The values a decoded JSON document is made of.  A dictionary is an association list in
  insertion order.  JSON numbers are given as integers; no field read here is fractional.
\<close>

datatype pyval =
    PNone
  | PBool bool
  | PInt int
  | PStr pystr
  | PList "pyval list"
  | PDict "(pystr \<times> pyval) list"

type_synonym dict = "(pystr \<times> pyval) list"

text \<open>
  The exceptions that leave the modelled functions.  \<open>HTTPError\<close> and \<open>URLError\<close> are
  urllib's; \<open>MalformedResponse\<close> and \<open>RequestError\<close> are the two classes client.py
  declares; the others are Python's own.
\<close>

datatype exn =
    HTTPError nat string
  | URLError
  | MalformedResponse
  | RequestError pystr
  | AttributeError
  | TypeError
  | KeyError
  | IndexError

text \<open>Truth value of an object, as \<open>if x:\<close> and \<open>not x\<close> take it.\<close>

fun truthy :: "pyval \<Rightarrow> bool" where
  "truthy PNone = False"
| "truthy (PBool b) = b"
| "truthy (PInt i) = (i \<noteq> 0)"
| "truthy (PStr s) = (s \<noteq> [])"
| "truthy (PList xs) = (xs \<noteq> [])"
| "truthy (PDict d) = (d \<noteq> [])"

text \<open>\<open>d.get(key, default)\<close> on a dictionary, and on any object: only a dictionary has
  the method.\<close>

definition dict_get :: "dict \<Rightarrow> pystr \<Rightarrow> pyval \<Rightarrow> pyval" where
  "dict_get d key dflt = (case map_of d key of None \<Rightarrow> dflt | Some v \<Rightarrow> v)"

fun py_get :: "pyval \<Rightarrow> pystr \<Rightarrow> pyval \<Rightarrow> exn + pyval" where
  "py_get (PDict d) key dflt = Inr (dict_get d key dflt)"
| "py_get _ key dflt = Inl AttributeError"

text \<open>\<open>d.update({key: v})\<close>: an existing key keeps its place, a new one goes to the end.\<close>

fun dict_set :: "pystr \<Rightarrow> pyval \<Rightarrow> dict \<Rightarrow> dict" where
  "dict_set key v [] = [(key, v)]"
| "dict_set key v ((k, x) # d) = (if k = key then (key, v) # d else (k, x) # dict_set key v d)"

text \<open>\<open>x[0]\<close>: the first element of a list, the first code point of a string; a decoded
  JSON object has string keys only, so \<open>0\<close> is no key of it.\<close>

fun subscript0 :: "pyval \<Rightarrow> exn + pyval" where
  "subscript0 (PList []) = Inl IndexError"
| "subscript0 (PList (x # xs)) = Inr x"
| "subscript0 (PStr []) = Inl IndexError"
| "subscript0 (PStr (c # cs)) = Inr (PStr [c])"
| "subscript0 (PDict d) = Inl KeyError"
| "subscript0 _ = Inl TypeError"

section \<open>client.py: the transport\<close>

text \<open>
  One HTTP exchange ends with a response (status code and body, after redirections) or
  without one.  \<open>urlopen\<close> returns the body of a 2xx response, raises \<open>HTTPError\<close> for
  every other status and \<open>URLError\<close> when there is no response.
\<close>

datatype http_outcome = Response nat string | ConnFailure

fun urlopen :: "http_outcome \<Rightarrow> exn + string" where
  "urlopen (Response code txt) =
     (if 200 \<le> code \<and> code < 300 then Inr txt else Inl (HTTPError code txt))"
| "urlopen ConnFailure = Inl URLError"

text \<open>
  \<open>json2python\<close>: \<open>json.loads\<close>, with every exception swallowed into \<open>None\<close>.  The
  parser of the standard library is a parameter: \<open>loads data = None\<close> when it raises.
\<close>

definition json2python :: "(string \<Rightarrow> pyval option) \<Rightarrow> string \<Rightarrow> pyval" where
  "json2python loads data = (case loads data of Some v \<Rightarrow> v | None \<Rightarrow> PNone)"

text \<open>
  A request as it leaves \<open>send_request\<close>: the URL, the argument dictionary that is
  serialised into the field \<open>request-json\<close>, and the file if there is one.  The bytes of
  the form encoding and of the multipart body are not modelled.
\<close>

record request =
  url :: pystr
  request_json :: dict
  file_args :: "(pystr \<times> string) option"

text \<open>
  What \<open>send_request\<close> reads and writes outside its own frame: the dictionary objects
  (by address, so that a caller and the callee can hold the same one), the files
  written, the requests sent so far and the values \<open>job_status\<close> prints.  The
  diagnostic prints of \<open>send_request\<close> itself are left out.
\<close>

record world =
  heap :: "nat \<Rightarrow> dict"
  files :: "string \<Rightarrow> string option"
  sent :: "request list"
  out :: "(string \<times> pyval) list"

record client =
  session :: pyval
  apiurl :: pystr

text \<open>The one dictionary object that the default \<open>args={}\<close> of \<open>send_request\<close> is.\<close>

definition default_args :: nat where
  "default_args = 0"

text \<open>
  The first step of \<open>send_request\<close>: \<open>args.update({'session': self.session})\<close> when
  the client holds a session.  \<open>args\<close> is the address of the dictionary object, the
  caller's or the default one.
\<close>

definition inject_session :: "client \<Rightarrow> nat \<Rightarrow> world \<Rightarrow> world" where
  "inject_session self args w =
     (if session self \<noteq> PNone
      then w\<lparr>heap := (heap w)(args := dict_set (py ''session'') (session self) (heap w args))\<rparr>
      else w)"

text \<open>The request that is then built from the dictionary.\<close>

definition encode_request ::
  "client \<Rightarrow> pystr \<Rightarrow> nat \<Rightarrow> (pystr \<times> string) option \<Rightarrow> world \<Rightarrow> request" where
  "encode_request self service args file w =
     \<lparr>url = apiurl self @ service, request_json = heap w args, file_args = file\<rparr>"

text \<open>
  \<open>Client.send_request\<close>.  \<open>net k\<close> is how the exchange of the request ends that goes
  out when \<open>k\<close> requests went out before it.  A result that is no dictionary has no
  method \<open>get\<close>, and an \<open>errormessage\<close> that is no string cannot be appended to one.
\<close>

definition send_request ::
  "(string \<Rightarrow> pyval option) \<Rightarrow> (nat \<Rightarrow> http_outcome) \<Rightarrow> client \<Rightarrow>
   pystr \<Rightarrow> nat \<Rightarrow> (pystr \<times> string) option \<Rightarrow> world \<Rightarrow> (exn + pyval) \<times> world" where
  "send_request loads net self service args file w =
     (let w1 = inject_session self args w;
          w2 = w1\<lparr>sent := sent w1 @ [encode_request self service args file w1]\<rparr>
      in case urlopen (net (length (sent w1))) of
           Inr txt \<Rightarrow>
             (case json2python loads txt of
                PDict result \<Rightarrow>
                  if dict_get result (py ''status'') PNone = PStr (py ''error'')
                  then (case dict_get result (py ''errormessage'') (PStr (py ''(none)'')) of
                          PStr errstr \<Rightarrow>
                            (Inl (RequestError (py ''server error message: '' @ errstr)), w2)
                        | _ \<Rightarrow> (Inl TypeError, w2))
                  else (Inr (PDict result), w2)
              | _ \<Rightarrow> (Inl AttributeError, w2))
         | Inl (HTTPError code txt) \<Rightarrow>
             (Inr PNone, w2\<lparr>files := (files w2)(''err.html'' := Some txt)\<rparr>)
         | Inl e \<Rightarrow> (Inl e, w2))"

text \<open>
  The six requests of \<open>Client.job_status\<close> after the status request, with the label
  each result is printed under, in the order of the source.
\<close>

definition job_fetches :: "pystr \<Rightarrow> (string \<times> pystr) list" where
  "job_fetches job_id =
    [(''Calibration:'', py ''jobs/'' @ job_id @ py ''/calibration''),
     (''Tags:'', py ''jobs/'' @ job_id @ py ''/tags''),
     (''Machine Tags:'', py ''jobs/'' @ job_id @ py ''/machine_tags''),
     (''Objects in field:'', py ''jobs/'' @ job_id @ py ''/objects_in_field''),
     (''Annotations:'', py ''jobs/'' @ job_id @ py ''/annotations''),
     (''Calibration:'', py ''jobs/'' @ job_id @ py ''/info'')]"

text \<open>One \<open>result = self.send_request(...)\<close>, \<open>print(label, result)\<close> after the other; an
  exception of \<open>send_request\<close> ends the sequence.\<close>

fun fetch_each ::
  "(string \<Rightarrow> pyval option) \<Rightarrow> (nat \<Rightarrow> http_outcome) \<Rightarrow> client \<Rightarrow>
   (string \<times> pystr) list \<Rightarrow> world \<Rightarrow> (exn + unit) \<times> world" where
  "fetch_each loads net self [] w = (Inr (), w)"
| "fetch_each loads net self ((label, service) # rest) w =
     (case send_request loads net self service default_args None w of
        (Inl e, w') \<Rightarrow> (Inl e, w')
      | (Inr result, w') \<Rightarrow>
          fetch_each loads net self rest (w'\<lparr>out := out w' @ [(label, result)]\<rparr>))"

text \<open>\<open>Client.job_status(job_id, justdict)\<close>; \<open>job_id\<close> is given as \<open>'%s'\<close> formats it.\<close>

definition job_status ::
  "(string \<Rightarrow> pyval option) \<Rightarrow> (nat \<Rightarrow> http_outcome) \<Rightarrow> client \<Rightarrow>
   pystr \<Rightarrow> bool \<Rightarrow> world \<Rightarrow> (exn + pyval) \<times> world" where
  "job_status loads net self job_id justdict w =
     (case send_request loads net self (py ''jobs/'' @ job_id) default_args None w of
        (Inl e, w1) \<Rightarrow> (Inl e, w1)
      | (Inr result, w1) \<Rightarrow>
          if justdict then (Inr result, w1)
          else (case py_get result (py ''status'') PNone of
                  Inl e \<Rightarrow> (Inl e, w1)
                | Inr stat \<Rightarrow>
                    if stat = PStr (py ''success'')
                    then (case fetch_each loads net self (job_fetches job_id) w1 of
                            (Inl e, w2) \<Rightarrow> (Inl e, w2)
                          | (Inr u, w2) \<Rightarrow> (Inr stat, w2))
                    else (Inr stat, w1)))"

section \<open>The submission pollers\<close>

text \<open>
  Both pollers are a \<open>while True\<close> around one status request and a sleep.  \<open>poll k\<close> is
  what the \<open>k\<close>-th status request gives: the decoded response or the exception it ends
  with.  \<open>step\<close> is the body of the loop: it raises, returns a value, or (\<open>Inr None\<close>)
  falls through to the sleep.  A loop that never returns has the value \<open>None\<close>.
\<close>

partial_function (option) poll_loop ::
  "(pyval \<Rightarrow> exn + pyval option) \<Rightarrow> (nat \<Rightarrow> exn + pyval) \<Rightarrow> nat \<Rightarrow> (exn + pyval) option" where
  "poll_loop step poll n =
     (case poll n of
        Inl e \<Rightarrow> Some (Inl e)
      | Inr result \<Rightarrow>
          (case step result of
             Inl e \<Rightarrow> Some (Inl e)
           | Inr (Some v) \<Rightarrow> Some (Inr v)
           | Inr None \<Rightarrow> poll_loop step poll (Suc n)))"

subsection \<open>astrometry_solver.py\<close>

text \<open>The body of the loop of \<open>AstrometrySolver.wait_for_submission\<close>.\<close>

definition submission_step :: "pyval \<Rightarrow> exn + pyval option" where
  "submission_step result =
     (case py_get result (py ''processing_finished'') PNone of
        Inl e \<Rightarrow> Inl e
      | Inr finished \<Rightarrow>
          if truthy finished
          then (case py_get result (py ''jobs'') (PList []) of
                  Inl e \<Rightarrow> Inl e
                | Inr job_ids \<Rightarrow>
                    if truthy job_ids
                    then (case subscript0 job_ids of
                            Inl e \<Rightarrow> Inl e
                          | Inr j \<Rightarrow> if j \<noteq> PNone then Inr (Some job_ids)
                                     else Inr (Some (PList [])))
                    else Inr (Some (PList [])))
          else Inr None)"

definition wait_for_submission :: "(nat \<Rightarrow> exn + pyval) \<Rightarrow> nat \<Rightarrow> (exn + pyval) option" where
  "wait_for_submission poll n = poll_loop submission_step poll n"

text \<open>
  What \<open>main\<close> makes of the list: \<open>if not job_ids: continue\<close> is the outcome the
  specification calls \<open>SUBMISSION_EMPTY\<close>, \<open>job_id = job_ids[0]\<close> the one it calls
  \<open>JOB_DISCOVERED\<close>.
\<close>

datatype discovery = SUBMISSION_EMPTY | JOB_DISCOVERED pyval

definition discover_job :: "(nat \<Rightarrow> exn + pyval) \<Rightarrow> nat \<Rightarrow> (exn + discovery) option" where
  "discover_job poll n =
     (case wait_for_submission poll n of
        None \<Rightarrow> None
      | Some (Inl e) \<Rightarrow> Some (Inl e)
      | Some (Inr job_ids) \<Rightarrow>
          if \<not> truthy job_ids then Some (Inr SUBMISSION_EMPTY)
          else (case subscript0 job_ids of
                  Inl e \<Rightarrow> Some (Inl e)
                | Inr job_id \<Rightarrow> Some (Inr (JOB_DISCOVERED job_id))))"

subsection \<open>client.py: \<open>run_client\<close>\<close>

text \<open>\<open>for j in jobs: if j is not None: break\<close>, then \<open>if j is not None\<close>: the first entry
  that is not \<open>None\<close>, if there is one.\<close>

fun first_job :: "pyval list \<Rightarrow> pyval option" where
  "first_job [] = None"
| "first_job (j # jobs) = (if j \<noteq> PNone then Some j else first_job jobs)"

text \<open>\<open>if len(jobs):\<close> and the loop, for whatever \<open>jobs\<close> is: a string iterates over its
  code points and a dictionary over its keys, other objects have no length.\<close>

fun select_job :: "pyval \<Rightarrow> exn + pyval option" where
  "select_job (PList jobs) = Inr (first_job jobs)"
| "select_job (PStr []) = Inr None"
| "select_job (PStr (c # cs)) = Inr (Some (PStr [c]))"
| "select_job (PDict []) = Inr None"
| "select_job (PDict ((k, v) # d)) = Inr (Some (PStr k))"
| "select_job _ = Inl TypeError"

definition run_client_step :: "pyval \<Rightarrow> exn + pyval option" where
  "run_client_step stat =
     (case py_get stat (py ''jobs'') (PList []) of
        Inl e \<Rightarrow> Inl e
      | Inr jobs \<Rightarrow> select_job jobs)"

definition run_client_wait :: "(nat \<Rightarrow> exn + pyval) \<Rightarrow> nat \<Rightarrow> (exn + pyval) option" where
  "run_client_wait poll n = poll_loop run_client_step poll n"

section \<open>Auxiliary notions for the proofs\<close>

text \<open>The code points that occur in the keys and in the values of a replacement table,
  and the tables whose keys are single code points.\<close>

definition table_keys :: "(pystr \<times> pystr) list \<Rightarrow> nat set" where
  "table_keys items = \<Union> (set ` fst ` set items)"

definition table_values :: "(pystr \<times> pystr) list \<Rightarrow> nat set" where
  "table_values items = \<Union> (set ` snd ` set items)"

definition single_keys :: "(pystr \<times> pystr) list \<Rightarrow> bool" where
  "single_keys items = list_all (\<lambda>(k, e). length k = 1) items"

text \<open>A word: not empty and free of white space.\<close>

definition word :: "pystr \<Rightarrow> bool" where
  "word w = (w \<noteq> [] \<and> list_all (\<lambda>c. \<not> isspace c) w)"

text \<open>
  An exchange after which \<open>send_request\<close> returns instead of raising: a status outside
  2xx, or a 2xx body that decodes to a dictionary whose \<open>status\<close> is not \<open>error\<close>; and
  the value \<open>send_request\<close> then returns.
\<close>

definition benign :: "(string \<Rightarrow> pyval option) \<Rightarrow> http_outcome \<Rightarrow> bool" where
  "benign loads outcome =
     (case urlopen outcome of
        Inr txt \<Rightarrow>
          (case loads txt of
             Some (PDict d) \<Rightarrow> dict_get d (py ''status'') PNone \<noteq> PStr (py ''error'')
           | _ \<Rightarrow> False)
      | Inl (HTTPError code txt) \<Rightarrow> True
      | Inl e \<Rightarrow> False)"

definition reply_value :: "(string \<Rightarrow> pyval option) \<Rightarrow> http_outcome \<Rightarrow> pyval" where
  "reply_value loads outcome =
     (case urlopen outcome of Inr txt \<Rightarrow> json2python loads txt | Inl e \<Rightarrow> PNone)"

text \<open>
  The \<open>i\<close>-th status request leaves the loop in its sleep: it gave a response and the
  body of the loop fell through.  A response of a submission that is not finished: a
  dictionary whose \<open>processing_finished\<close> is absent or false.
\<close>

definition waits :: "(pyval \<Rightarrow> exn + pyval option) \<Rightarrow> (nat \<Rightarrow> exn + pyval) \<Rightarrow> nat \<Rightarrow> bool" where
  "waits step poll i = (case poll i of Inl e \<Rightarrow> False
                        | Inr v \<Rightarrow> (case step v of Inr None \<Rightarrow> True | _ \<Rightarrow> False))"

definition unfinished :: "pyval \<Rightarrow> bool" where
  "unfinished result =
     (case result of PDict d \<Rightarrow> \<not> truthy (dict_get d (py ''processing_finished'') PNone)
      | _ \<Rightarrow> False)"

section \<open>Example inputs\<close>



text \<open>Two response bodies, and \<open>json.loads\<close> as far as the examples need it: the value
  of these two bodies; the other bodies of the examples are no JSON.\<close>

definition success_body :: string where
  \<open>success_body = ''{"status": "success"}''\<close>

definition error_body :: string where
  \<open>error_body = ''{"status": "error", "errormessage": "no such job"}''\<close>

definition example_loads :: "string \<Rightarrow> pyval option" where
  "example_loads data =
     (if data = success_body
      then Some (PDict [(py ''status'', PStr (py ''success''))])
      else if data = error_body
      then Some (PDict [(py ''status'', PStr (py ''error'')),
                        (py ''errormessage'', PStr (py ''no such job''))])
      else None)"

text \<open>A world in which nothing has happened yet, one in which a caller holds a
  dictionary at address 1, a client before and one after \<open>login\<close>.\<close>

definition empty_world :: world where
  "empty_world = \<lparr>heap = (\<lambda>a. []), files = (\<lambda>fn. None), sent = [], out = []\<rparr>"

definition caller_world :: world where
  "caller_world =
     \<lparr>heap = (\<lambda>a. if a = 1 then [(py ''subid'', PInt 7)] else []),
      files = (\<lambda>fn. None), sent = [], out = []\<rparr>"

definition anonymous :: client where
  "anonymous = \<lparr>session = PNone, apiurl = py ''https://nova.astrometry.net/api/''\<rparr>"

definition logged_in :: client where
  "logged_in = \<lparr>session = PStr (py ''s3cr3t''), apiurl = py ''https://nova.astrometry.net/api/''\<rparr>"

text \<open>Servers: one that answers every request with status 500, one that answers with
  a page of HTML, one where the job has succeeded and every later request ends with
  status 503, and one that reports an error for the second request.\<close>

definition server_error_net :: "nat \<Rightarrow> http_outcome" where
  "server_error_net k = Response 500 ''<h1>Server Error (500)</h1>''"

definition html_net :: "nat \<Rightarrow> http_outcome" where
  "html_net k = Response 200 ''<html>maintenance</html>''"

definition all_fail_net :: "nat \<Rightarrow> http_outcome" where
  "all_fail_net k =
     (if k = 0 then Response 200 success_body else Response 503 ''Service Unavailable'')"

definition error_net :: "nat \<Rightarrow> http_outcome" where
  "error_net k = (if k = 1 then Response 200 error_body else Response 200 success_body)"

text \<open>Submission status responses, one sequence each: two unfinished responses and then
  a finished one with a job; finished with a single null entry; finished with a null
  entry before a job; never finished but with a job listed; finished with a null entry
  before two jobs; never finished, with a null entry before two jobs; and one whose
  \<open>processing_finished\<close> is the number 1.\<close>

definition pending_then_finished :: "nat \<Rightarrow> exn + pyval" where
  "pending_then_finished k =
     (if k < 2
      then Inr (PDict [(py ''processing_finished'', PBool False), (py ''jobs'', PList [])])
      else Inr (PDict [(py ''processing_finished'', PBool True),
                       (py ''jobs'', PList [PInt 7, PNone])]))"

definition all_null_poll :: "nat \<Rightarrow> exn + pyval" where
  "all_null_poll k =
     Inr (PDict [(py ''processing_finished'', PBool True), (py ''jobs'', PList [PNone])])"

definition null_then_job_poll :: "nat \<Rightarrow> exn + pyval" where
  "null_then_job_poll k =
     Inr (PDict [(py ''processing_finished'', PBool True), (py ''jobs'', PList [PNone, PInt 5])])"

definition unfinished_with_job_poll :: "nat \<Rightarrow> exn + pyval" where
  "unfinished_with_job_poll k =
     Inr (PDict [(py ''processing_finished'', PBool False), (py ''jobs'', PList [PInt 5])])"

definition two_jobs_poll :: "nat \<Rightarrow> exn + pyval" where
  "two_jobs_poll k =
     Inr (PDict [(py ''processing_finished'', PBool True),
                 (py ''jobs'', PList [PNone, PInt 5, PInt 9])])"

definition unfinished_two_jobs_poll :: "nat \<Rightarrow> exn + pyval" where
  "unfinished_two_jobs_poll k =
     Inr (PDict [(py ''processing_finished'', PBool False),
                 (py ''jobs'', PList [PNone, PInt 5, PInt 9])])"

definition finished_as_one_poll :: "nat \<Rightarrow> exn + pyval" where
  "finished_as_one_poll k =
     Inr (PDict [(py ''processing_finished'', PInt 1), (py ''jobs'', PList [PInt 7])])"

section \<open>Properties of name normalization\<close>

lemma py_replace_single:
  "py_replace [g] e s = concat (map (\<lambda>c. if c = g then e else [c]) s)"
  by (induction s) (auto simp: py_replace.simps(2))

lemma set_py_replace_single:
  "set (py_replace [g] e s) \<subseteq> (set s - {g}) \<union> set e"
  by (auto simp: py_replace_single split: if_splits)

lemma py_replace_absent:
  "g \<notin> set s \<Longrightarrow> py_replace [g] e s = s"
  by (induction s) (simp_all add: py_replace_single)

lemma set_replace_all:
  "single_keys items \<Longrightarrow>
   set (replace_all items s) \<subseteq> (set s - table_keys items) \<union> table_values items"
proof (induction items arbitrary: s)
  case Nil
  then show ?case by (simp add: table_keys_def)
next
  case (Cons p items)
  obtain k e where p: "p = (k, e)" by (cases p)
  with Cons.prems obtain g where k: "k = [g]"
    by (cases k) (auto simp: single_keys_def)
  have rest: "single_keys items"
    using Cons.prems by (simp add: single_keys_def)
  have "set (replace_all items (py_replace [g] e s))
          \<subseteq> (set (py_replace [g] e s) - table_keys items) \<union> table_values items"
    by (rule Cons.IH [OF rest])
  moreover have "set (py_replace [g] e s) \<subseteq> (set s - {g}) \<union> set e"
    by (rule set_py_replace_single)
  ultimately show ?case
    unfolding p k by (auto simp: table_keys_def table_values_def)
qed

lemma replace_all_absent:
  "single_keys items \<Longrightarrow> set s \<inter> table_keys items = {} \<Longrightarrow> replace_all items s = s"
proof (induction items arbitrary: s)
  case Nil
  then show ?case by simp
next
  case (Cons p items)
  obtain k e where p: "p = (k, e)" by (cases p)
  with Cons.prems obtain g where k: "k = [g]"
    by (cases k) (auto simp: single_keys_def)
  have "g \<notin> set s"
    using Cons.prems(2) unfolding p k by (auto simp: table_keys_def)
  then have "py_replace [g] e s = s"
    by (rule py_replace_absent)
  moreover have "replace_all items s = s"
    using Cons.prems by (intro Cons.IH) (auto simp: single_keys_def table_keys_def)
  ultimately show ?case
    unfolding p k by simp
qed

lemma single_keys_GREEK_MAP: "single_keys GREEK_MAP"
  by (simp add: single_keys_def GREEK_MAP_def)

lemma table_keys_GREEK_MAP: "table_keys GREEK_MAP = {945..961} \<union> {963..969}"
proof -
  have "x \<in> table_keys GREEK_MAP \<longleftrightarrow> x \<in> {945..961} \<union> {963..969}" for x
    unfolding table_keys_def GREEK_MAP_def by simp arith
  then show ?thesis by blast
qed

lemma table_values_GREEK_MAP: "table_values GREEK_MAP \<subseteq> {65..122}"
  by (simp add: table_values_def GREEK_MAP_def py_def)


lemma py_split_Nil: "py_split [] = []"
  by (simp add: py_split.simps)

lemma py_split_space: "isspace c \<Longrightarrow> py_split (c # s) = py_split s"
  by (simp add: py_split.simps [of "c # s"] py_split.simps [of s])

lemma py_split_word_then:
  assumes "word w" and "s = [] \<or> isspace (hd s)"
  shows "py_split (w @ s) = w # py_split s"
proof -
  obtain c cs where w: "w = c # cs"
    using assms(1) by (cases w) (auto simp: word_def)
  have c: "\<not> isspace c" and cs: "\<forall>x\<in>set cs. \<not> isspace x"
    using assms(1) by (auto simp: word_def w list_all_iff)
  have d: "dropWhile isspace (w @ s) = w @ s"
    using c by (simp add: w)
  have t: "takeWhile (\<lambda>x. \<not> isspace x) (w @ s) = w"
    using assms c cs by (cases s) (auto simp: w takeWhile_append2 list_all_iff)
  have r: "dropWhile (\<lambda>x. \<not> isspace x) (w @ s) = s"
    using assms c cs by (cases s) (auto simp: w dropWhile_append2)
  have "py_split (w @ s) = w # py_split s"
    unfolding py_split.simps [of "w @ s"] Let_def d t r using w by simp
  then show ?thesis .
qed

lemma py_split_words: "list_all word (py_split s)"
proof (induction s rule: py_split.induct)
  case (1 s)
  show ?case
  proof (cases "dropWhile isspace s = []")
    case True
    then show ?thesis by (simp add: py_split.simps [of s])
  next
    case False
    then have "\<not> isspace (hd (dropWhile isspace s))"
      by (rule hd_dropWhile)
    then have "word (takeWhile (\<lambda>x. \<not> isspace x) (dropWhile isspace s))"
      using False by (cases "dropWhile isspace s") (auto simp: word_def list_all_iff dest: set_takeWhileD)
    moreover have "list_all word (py_split (dropWhile (\<lambda>x. \<not> isspace x) (dropWhile isspace s)))"
      using 1 [OF refl False] .
    ultimately show ?thesis
      using False by (simp add: py_split.simps [of s] Let_def)
  qed
qed

lemma set_py_split: "\<Union> (set ` set (py_split s)) \<subseteq> set s"
proof (induction s rule: py_split.induct)
  case (1 s)
  show ?case
  proof (cases "dropWhile isspace s = []")
    case True
    then show ?thesis by (simp add: py_split.simps [of s])
  next
    case False
    have "\<Union> (set ` set (py_split (dropWhile (\<lambda>x. \<not> isspace x) (dropWhile isspace s))))
            \<subseteq> set (dropWhile (\<lambda>x. \<not> isspace x) (dropWhile isspace s))"
      using 1 [OF refl False] .
    then show ?thesis
      using False
      by (subst py_split.simps) (auto simp: Let_def dest!: set_takeWhileD set_dropWhileD)
  qed
qed

lemma isspace_32: "isspace 32"
  by (simp add: isspace_def)

lemma py_space: "py '' '' = [32]"
  by (simp add: py_def)

lemma py_split_join: "list_all word ws \<Longrightarrow> py_split (py_join [32] ws) = ws"
proof (induction "[32::nat]" ws rule: py_join.induct)
  case 1
  then show ?case by (simp add: py_split_Nil)
next
  case (2 w)
  then show ?case
    using py_split_word_then [of w "[]"] by (simp add: py_split_Nil)
next
  case (3 w v ws)
  have "py_split (w @ 32 # py_join [32] (v # ws)) = w # py_split (32 # py_join [32] (v # ws))"
    using 3 by (intro py_split_word_then) (simp_all add: isspace_32)
  also have "py_split (32 # py_join [32] (v # ws)) = py_split (py_join [32] (v # ws))"
    by (rule py_split_space [OF isspace_32])
  also have "\<dots> = v # ws"
    using 3 by simp
  finally show ?case by simp
qed

lemma set_py_join: "set (py_join sep ws) \<subseteq> set sep \<union> \<Union> (set ` set ws)"
  by (induction sep ws rule: py_join.induct) auto

lemma set_normalize_name:
  "set (normalize_name name) \<subseteq> {32} \<union> (set name - table_keys GREEK_MAP) \<union> table_values GREEK_MAP"
proof -
  have "set (normalize_name name) \<subseteq> {32} \<union> set (replace_all GREEK_MAP name)"
    unfolding normalize_name_def py_space
    using set_py_join [of "[32]" "py_split (replace_all GREEK_MAP name)"]
      set_py_split [of "replace_all GREEK_MAP name"] by auto
  then show ?thesis
    using set_replace_all [OF single_keys_GREEK_MAP, of name] by blast
qed

lemma normalize_name_no_keys: "set (normalize_name name) \<inter> table_keys GREEK_MAP = {}"
  using set_normalize_name [of name] table_values_GREEK_MAP
  unfolding table_keys_GREEK_MAP by fastforce



text \<open>
  Claim C7: name normalization is idempotent,
  \<open>normalize_name (normalize_name x) = normalize_name x\<close> for every string \<open>x\<close>.
\<close>

theorem normalize_name_idempotent:
  "normalize_name (normalize_name x) = normalize_name x"
proof -
  let ?ws = "py_split (replace_all GREEK_MAP x)"
  have n: "normalize_name x = py_join [32] ?ws"
    by (simp add: normalize_name_def py_space)
  have "normalize_name (normalize_name x)
          = py_join [32] (py_split (replace_all GREEK_MAP (normalize_name x)))"
    by (simp add: normalize_name_def [of "normalize_name x"] py_space)
  also have "replace_all GREEK_MAP (normalize_name x) = normalize_name x"
    by (rule replace_all_absent [OF single_keys_GREEK_MAP normalize_name_no_keys])
  also have "py_split (normalize_name x) = py_split (py_join [32] ?ws)"
    by (simp only: n)
  also have "\<dots> = ?ws"
    by (rule py_split_join [OF py_split_words])
  finally show ?thesis
    by (simp only: n)
qed


section \<open>Endpoint resolution\<close>


lemma name_matches_iff:
  "name_matches pat ns = list_ex (\<lambda>name. py_in pat (normalize_name name)) ns"
  by (induction ns) simp_all

lemma find_star_Some:
  "find_star_in_annotations pat annotations = Some star \<Longrightarrow>
   star \<in> set annotations \<and> name_matches pat (get_names star)"
  by (induction annotations) (auto split: if_splits)

text \<open>The pattern has to occur in the alias with its capital E: in \<open>Theta Ori\<close> alone
  only \<open>eta Ori\<close> occurs, and the containment test compares code points.\<close>

lemma eta_not_in_theta: "\<not> py_in (py ''Eta Ori'') (py ''Theta Ori'')"
  by (simp add: py_def)






section \<open>Properties of the transport\<close>

lemma sent_inject_session [simp]: "sent (inject_session self args w) = sent w"
  by (simp add: inject_session_def)

lemma files_inject_session [simp]: "files (inject_session self args w) = files w"
  by (simp add: inject_session_def)

lemma out_inject_session [simp]: "out (inject_session self args w) = out w"
  by (simp add: inject_session_def)

lemma urlopen_failure:
  "\<not> (200 \<le> code \<and> code < 300) \<Longrightarrow> urlopen (Response code txt) = Inl (HTTPError code txt)"
  by auto

lemma urlopen_success:
  "200 \<le> code \<and> code < 300 \<Longrightarrow> urlopen (Response code txt) = Inr txt"
  by auto

text \<open>
  Claim C1, as the code has it: when the exchange ends with a status outside 2xx,
  \<open>send_request\<close> writes the body of the response to \<open>err.html\<close> and then returns
  \<open>None\<close>.  The handler \<open>except HTTPError\<close> does not raise again, so the caller gets a
  value and no \<open>HTTPError\<close>.
\<close>

theorem send_request_http_error_returns_None:
  assumes "net (length (sent w)) = Response code txt"
    and "\<not> (200 \<le> code \<and> code < 300)"
  shows "fst (send_request loads net self service args file w) = Inr PNone \<and>
         files (snd (send_request loads net self service args file w)) ''err.html'' = Some txt"
proof -
  have "urlopen (Response code txt) = Inl (HTTPError code txt)"
    using assms(2) by (rule urlopen_failure)
  with assms(1) show ?thesis
    by (simp add: send_request_def Let_def del: urlopen.simps)
qed

theorem send_request_http_error_returns_None_witness:
  "server_error_net (length (sent empty_world)) = Response 500 ''<h1>Server Error (500)</h1>'' \<and>
   \<not> (200 \<le> (500::nat) \<and> (500::nat) < 300) \<and>
   fst (send_request example_loads server_error_net logged_in (py ''myjobs/'') default_args None
          empty_world) = Inr PNone \<and>
   files (snd (send_request example_loads server_error_net logged_in (py ''myjobs/'') default_args
          None empty_world)) ''err.html'' = Some ''<h1>Server Error (500)</h1>''"
proof -
  have h1: "server_error_net (length (sent empty_world)) = Response 500 ''<h1>Server Error (500)</h1>''"
    by (simp add: server_error_net_def)
  have h2: "\<not> (200 \<le> (500::nat) \<and> (500::nat) < 300)"
    by simp
  show ?thesis
    using h1 h2
      send_request_http_error_returns_None [of server_error_net empty_world, OF h1 h2]
    by simp
qed

text \<open>A request that the server answers with status 500: \<open>send_request\<close> returns
  \<open>None\<close>, it does not end with an exception.\<close>

theorem http_error_is_not_raised:
  "fst (send_request example_loads server_error_net logged_in (py ''myjobs/'') default_args None
          empty_world) = Inr PNone \<and>
   fst (send_request example_loads server_error_net logged_in (py ''myjobs/'') default_args None
          empty_world) \<noteq> Inl (HTTPError 500 ''<h1>Server Error (500)</h1>'')"
  by (simp add: send_request_def Let_def server_error_net_def empty_world_def)

text \<open>
  Claim C2 asks for \<open>MalformedResponse\<close> when a 2xx body is no JSON.  The code declares
  the class and never raises it: \<open>json2python\<close> turns the failure of the parser into
  \<open>None\<close>, and \<open>result.get('status')\<close> on \<open>None\<close> ends the call with
  \<open>AttributeError\<close>.
\<close>

theorem send_request_unparseable_body:
  assumes "net (length (sent w)) = Response code txt"
    and "200 \<le> code \<and> code < 300"
    and "loads txt = None"
  shows "fst (send_request loads net self service args file w) = Inl AttributeError"
proof -
  have "urlopen (Response code txt) = Inr txt"
    using assms(2) by (rule urlopen_success)
  with assms(1,3) show ?thesis
    by (simp add: send_request_def Let_def json2python_def del: urlopen.simps)
qed

theorem send_request_unparseable_body_witness:
  "html_net (length (sent empty_world)) = Response 200 ''<html>maintenance</html>'' \<and>
   (200 \<le> (200::nat) \<and> (200::nat) < 300) \<and>
   example_loads ''<html>maintenance</html>'' = None \<and>
   fst (send_request example_loads html_net anonymous (py ''login'') 1 None empty_world)
     = Inl AttributeError"
proof -
  have h1: "html_net (length (sent empty_world)) = Response 200 ''<html>maintenance</html>''"
    by (simp add: html_net_def)
  have h2: "200 \<le> (200::nat) \<and> (200::nat) < 300"
    by simp
  have h3: "example_loads ''<html>maintenance</html>'' = None"
    by (simp add: example_loads_def success_body_def error_body_def)
  show ?thesis
    using h1 h2 h3
      send_request_unparseable_body [of html_net empty_world _ _ example_loads, OF h1 h2 h3]
    by simp
qed

text \<open>
  Claim C5, as the code has it: the dictionaries after a call of \<open>send_request\<close>,
  whatever the exchange gives.  Without a session no dictionary is touched; with a
  session the dictionary object passed as \<open>args\<close> has the session stored under the key
  \<open>session\<close>, in place, and every other dictionary is as before.
\<close>

theorem send_request_heap:
  "heap (snd (send_request loads net self service args file w)) =
     (if session self = PNone then heap w
      else (heap w)(args := dict_set (py ''session'') (session self) (heap w args)))"
  by (simp add: send_request_def Let_def inject_session_def
      split: sum.splits exn.splits pyval.splits)

text \<open>
  A caller's dictionary \<open>{'subid': 7}\<close> holds the session after the call.  And the
  default dictionary keeps what one client stored in it: the request of a second client
  that has no session carries the session of the first.
\<close>

theorem send_request_mutates_args:
  "heap caller_world 1 = [(py ''subid'', PInt 7)] \<and>
   heap (snd (send_request example_loads server_error_net logged_in (py ''submission_images'') 1
                None caller_world)) 1
     = [(py ''subid'', PInt 7), (py ''session'', PStr (py ''s3cr3t''))] \<and>
   request_json (last (sent (snd (send_request example_loads server_error_net anonymous
       (py ''myjobs/'') default_args None
       (snd (send_request example_loads server_error_net logged_in (py ''myjobs/'') default_args
               None empty_world))))))
     = [(py ''session'', PStr (py ''s3cr3t''))]"
  by (simp add: send_request_def Let_def inject_session_def encode_request_def caller_world_def
      empty_world_def logged_in_def anonymous_def server_error_net_def default_args_def py_def)

lemma send_request_benign:
  assumes "benign loads (net (length (sent w)))"
  shows "\<exists>w'. send_request loads net self service args file w
                 = (Inr (reply_value loads (net (length (sent w)))), w') \<and>
              sent w' = sent w @ [encode_request self service args file (inject_session self args w)] \<and>
              out w' = out w"
  using assms
  by (auto simp: send_request_def Let_def benign_def reply_value_def json2python_def
      simp del: urlopen.simps split: sum.splits exn.splits option.splits pyval.splits)

lemma url_encode_request [simp]:
  "url (encode_request self service args file w) = apiurl self @ service"
  by (simp add: encode_request_def)

lemma fetch_each_benign:
  assumes "\<forall>k. length (sent w) \<le> k \<and> k < length (sent w) + length items \<longrightarrow> benign loads (net k)"
  shows "\<exists>w'. fetch_each loads net self items w = (Inr (), w') \<and>
              map url (sent w') = map url (sent w) @ map (\<lambda>(l, s). apiurl self @ s) items \<and>
              out w' = out w @ zip (map fst items)
                         (map (\<lambda>k. reply_value loads (net k))
                           [length (sent w) ..< length (sent w) + length items])"
  using assms
proof (induction items arbitrary: w)
  case Nil
  then show ?case by simp
next
  case (Cons p items)
  obtain l s where p: "p = (l, s)" by (cases p)
  let ?n = "length (sent w)"
  have b: "benign loads (net ?n)"
    using Cons.prems by simp
  from send_request_benign [of loads net w self s default_args None, OF b]
  obtain w1 where w1: "send_request loads net self s default_args None w
                         = (Inr (reply_value loads (net ?n)), w1)"
      and sent1: "sent w1 = sent w @ [encode_request self s default_args None
                                        (inject_session self default_args w)]"
      and out1: "out w1 = out w"
    by blast
  let ?w2 = "w1\<lparr>out := out w1 @ [(l, reply_value loads (net ?n))]\<rparr>"
  have len: "length (sent ?w2) = Suc ?n"
    by (simp add: sent1)
  have "\<forall>k. length (sent ?w2) \<le> k \<and> k < length (sent ?w2) + length items \<longrightarrow> benign loads (net k)"
    using Cons.prems by (simp add: sent1)
  from Cons.IH [OF this]
  obtain w' where rest: "fetch_each loads net self items ?w2 = (Inr (), w')"
      and sent': "map url (sent w') = map url (sent ?w2) @ map (\<lambda>(l, s). apiurl self @ s) items"
      and out': "out w' = out ?w2 @ zip (map fst items)
                   (map (\<lambda>k. reply_value loads (net k))
                     [length (sent ?w2) ..< length (sent ?w2) + length items])"
    by blast
  have "fetch_each loads net self (p # items) w = (Inr (), w')"
    by (simp add: p w1 rest)
  moreover have "map url (sent w') = map url (sent w) @ map (\<lambda>(l, s). apiurl self @ s) (p # items)"
    by (simp add: sent' sent1 p)
  moreover have "out w' = out w @ zip (map fst (p # items))
                   (map (\<lambda>k. reply_value loads (net k)) [?n ..< ?n + length (p # items)])"
  proof -
    have "[?n ..< Suc (?n + length items)] = ?n # [Suc ?n ..< Suc (?n + length items)]"
      by (rule upt_conv_Cons) simp
    moreover have "length (sent w1) = Suc ?n"
      by (simp add: sent1)
    ultimately show ?thesis
      by (simp add: out' out1 p del: upt_Suc)
  qed
  ultimately show ?case by blast
qed

lemma length_job_fetches: "length (job_fetches job_id) = 6"
  by (simp add: job_fetches_def)

text \<open>
  Claim C8, as the code has it, for \<open>Client.job_status\<close> on a job whose status is
  \<open>success\<close>: when each of the six further exchanges ends either with a status outside
  2xx or with a well-formed answer that reports no error, all six requests are sent, in
  the order of the source, and each one's value is printed under its label, \<open>None\<close>
  for those that ended with a status outside 2xx.  \<open>job_status\<close> returns the status of
  the job.  (An exchange that ends otherwise raises, as the example after the witness
  shows.)
\<close>

theorem job_status_sub_fetches:
  assumes "urlopen (net (length (sent w))) = Inr txt"
    and "loads txt = Some (PDict d)"
    and "dict_get d (py ''status'') PNone = PStr (py ''success'')"
    and "\<forall>i<6. benign loads (net (length (sent w) + 1 + i))"
  shows "\<exists>w'. job_status loads net self job_id False w = (Inr (PStr (py ''success'')), w') \<and>
              map url (sent w') =
                map url (sent w) @
                map (\<lambda>service. apiurl self @ service)
                  ((py ''jobs/'' @ job_id) # map snd (job_fetches job_id)) \<and>
              out w' =
                out w @
                zip (map fst (job_fetches job_id))
                  (map (\<lambda>k. reply_value loads (net k))
                    [length (sent w) + 1 ..< length (sent w) + 7])"
proof -
  let ?n = "length (sent w)"
  have ne: "PStr (py ''success'') \<noteq> PStr (py ''error'')"
    by (simp add: py_def)
  have b: "benign loads (net ?n)"
    using assms(1-3) ne by (simp add: benign_def)
  have v: "reply_value loads (net ?n) = PDict d"
    using assms(1,2) by (simp add: reply_value_def json2python_def)
  from send_request_benign [of loads net w self "py ''jobs/'' @ job_id" default_args None, OF b]
  obtain w1 where w1: "send_request loads net self (py ''jobs/'' @ job_id) default_args None w
                         = (Inr (PDict d), w1)"
      and sent1: "sent w1 = sent w @ [encode_request self (py ''jobs/'' @ job_id) default_args None
                                        (inject_session self default_args w)]"
      and out1: "out w1 = out w"
    unfolding v by blast
  have len1: "length (sent w1) = Suc ?n"
    by (simp add: sent1)
  have "\<forall>k. length (sent w1) \<le> k \<and> k < length (sent w1) + length (job_fetches job_id)
             \<longrightarrow> benign loads (net k)"
  proof (intro allI impI)
    fix k
    assume "length (sent w1) \<le> k \<and> k < length (sent w1) + length (job_fetches job_id)"
    then have "k - Suc ?n < 6" and "k = ?n + 1 + (k - Suc ?n)"
      by (auto simp: len1 length_job_fetches)
    with assms(4) show "benign loads (net k)"
      by metis
  qed
  from fetch_each_benign [OF this, of self]
  obtain w' where fe: "fetch_each loads net self (job_fetches job_id) w1 = (Inr (), w')"
      and sent': "map url (sent w') =
                    map url (sent w1) @ map (\<lambda>(l, s). apiurl self @ s) (job_fetches job_id)"
      and out': "out w' = out w1 @ zip (map fst (job_fetches job_id))
                   (map (\<lambda>k. reply_value loads (net k))
                     [length (sent w1) ..< length (sent w1) + length (job_fetches job_id)])"
    by blast
  have "job_status loads net self job_id False w = (Inr (PStr (py ''success'')), w')"
    by (simp add: job_status_def w1 assms(3) fe)
  moreover have "map url (sent w') =
      map url (sent w) @
      map (\<lambda>service. apiurl self @ service) ((py ''jobs/'' @ job_id) # map snd (job_fetches job_id))"
    by (simp add: sent' sent1 case_prod_unfold comp_def)
  moreover have "out w' = out w @ zip (map fst (job_fetches job_id))
      (map (\<lambda>k. reply_value loads (net k)) [?n + 1 ..< ?n + 7])"
    by (simp add: out' out1 len1 length_job_fetches add.commute)
  ultimately show ?thesis by blast
qed

lemma example_loads_success:
  "example_loads success_body = Some (PDict [(py ''status'', PStr (py ''success''))])"
  by (simp add: example_loads_def)

lemma example_loads_error:
  "example_loads error_body = Some (PDict [(py ''status'', PStr (py ''error'')),
                                           (py ''errormessage'', PStr (py ''no such job''))])"
  by (simp add: example_loads_def success_body_def error_body_def)

lemma example_loads_other: "example_loads ''Service Unavailable'' = None"
  by (simp add: example_loads_def success_body_def error_body_def)

theorem job_status_sub_fetches_witness:
  "urlopen (all_fail_net (length (sent empty_world))) = Inr success_body \<and>
   example_loads success_body = Some (PDict [(py ''status'', PStr (py ''success''))]) \<and>
   dict_get [(py ''status'', PStr (py ''success''))] (py ''status'') PNone = PStr (py ''success'') \<and>
   (\<exists>w'. job_status example_loads all_fail_net anonymous (py ''14931481'') False empty_world
             = (Inr (PStr (py ''success'')), w') \<and>
          map url (sent w') =
            map (\<lambda>service. apiurl anonymous @ service)
              [py ''jobs/14931481'', py ''jobs/14931481/calibration'', py ''jobs/14931481/tags'',
               py ''jobs/14931481/machine_tags'', py ''jobs/14931481/objects_in_field'',
               py ''jobs/14931481/annotations'', py ''jobs/14931481/info''] \<and>
          out w' = [(''Calibration:'', PNone), (''Tags:'', PNone), (''Machine Tags:'', PNone),
                    (''Objects in field:'', PNone), (''Annotations:'', PNone),
                    (''Calibration:'', PNone)])"
proof -
  have h1: "urlopen (all_fail_net (length (sent empty_world))) = Inr success_body"
    by (simp add: all_fail_net_def empty_world_def)
  have h2: "example_loads success_body = Some (PDict [(py ''status'', PStr (py ''success''))])"
    by (rule example_loads_success)
  have h3: "dict_get [(py ''status'', PStr (py ''success''))] (py ''status'') PNone
              = PStr (py ''success'')"
    by (simp add: dict_get_def)
  have h4: "\<forall>i<6. benign example_loads (all_fail_net (length (sent empty_world) + 1 + i))"
    by (simp add: benign_def all_fail_net_def)
  have v: "reply_value example_loads (all_fail_net k) = PNone" if "0 < k" for k
    using that by (simp add: reply_value_def all_fail_net_def)
  have ks: "[length (sent empty_world) + 1 ..< length (sent empty_world) + 7] = [1, 2, 3, 4, 5, 6]"
    by (simp add: empty_world_def upt_rec)
  from job_status_sub_fetches [of all_fail_net empty_world success_body example_loads _ anonymous
      "py ''14931481''", OF h1 h2 h3 h4]
  obtain w' where
    "job_status example_loads all_fail_net anonymous (py ''14931481'') False empty_world
       = (Inr (PStr (py ''success'')), w')"
    "map url (sent w') =
       map url (sent empty_world) @
       map (\<lambda>service. apiurl anonymous @ service)
         ((py ''jobs/'' @ py ''14931481'') # map snd (job_fetches (py ''14931481'')))"
    "out w' =
       out empty_world @
       zip (map fst (job_fetches (py ''14931481'')))
         (map (\<lambda>k. reply_value example_loads (all_fail_net k))
           [length (sent empty_world) + 1 ..< length (sent empty_world) + 7])"
    by blast
  then have "job_status example_loads all_fail_net anonymous (py ''14931481'') False empty_world
       = (Inr (PStr (py ''success'')), w') \<and>
     map url (sent w') =
            map (\<lambda>service. apiurl anonymous @ service)
              [py ''jobs/14931481'', py ''jobs/14931481/calibration'', py ''jobs/14931481/tags'',
               py ''jobs/14931481/machine_tags'', py ''jobs/14931481/objects_in_field'',
               py ''jobs/14931481/annotations'', py ''jobs/14931481/info''] \<and>
     out w' = [(''Calibration:'', PNone), (''Tags:'', PNone), (''Machine Tags:'', PNone),
                    (''Objects in field:'', PNone), (''Annotations:'', PNone),
                    (''Calibration:'', PNone)]"
    unfolding ks by (simp add: v job_fetches_def py_def empty_world_def)
  with h1 h2 h3 h4 show ?thesis
    by blast
qed

text \<open>
  The job has succeeded and the server reports an error for the calibration request:
  \<open>job_status\<close> ends with \<open>RequestError\<close>, and the requests for tags, machine tags,
  objects in field, annotations and job info are never sent.
\<close>

theorem server_error_aborts_sub_fetches:
  "fst (job_status example_loads error_net anonymous (py ''14931481'') False empty_world)
     = Inl (RequestError (py ''server error message: no such job'')) \<and>
   map url (sent (snd (job_status example_loads error_net anonymous (py ''14931481'') False
                         empty_world)))
     = [py ''https://nova.astrometry.net/api/jobs/14931481'',
        py ''https://nova.astrometry.net/api/jobs/14931481/calibration'']"
  by (simp add: job_status_def job_fetches_def send_request_def Let_def inject_session_def
      encode_request_def error_net_def empty_world_def anonymous_def json2python_def
      example_loads_success example_loads_error dict_get_def py_def)


section \<open>Properties of the submission pollers\<close>

lemma poll_loop_wait:
  "waits step poll n \<Longrightarrow> poll_loop step poll n = poll_loop step poll (Suc n)"
  by (subst poll_loop.simps) (auto simp: waits_def split: sum.splits option.splits)

lemma poll_loop_waits:
  "\<forall>i. n \<le> i \<and> i < n + m \<longrightarrow> waits step poll i \<Longrightarrow>
   poll_loop step poll n = poll_loop step poll (n + m)"
proof (induction m)
  case 0
  then show ?case by simp
next
  case (Suc m)
  then have "poll_loop step poll n = poll_loop step poll (n + m)"
    by simp
  also have "\<dots> = poll_loop step poll (Suc (n + m))"
    using Suc.prems by (intro poll_loop_wait) simp
  finally show ?case by simp
qed

lemma poll_loop_Some:
  assumes "poll_loop step poll n = Some r"
  shows "\<exists>k\<ge>n. (\<forall>i. n \<le> i \<and> i < k \<longrightarrow> waits step poll i) \<and> \<not> waits step poll k \<and>
           poll_loop step poll k = Some r"
proof (rule poll_loop.raw_induct
    [where P = "\<lambda>step poll n r. \<exists>k\<ge>n. (\<forall>i. n \<le> i \<and> i < k \<longrightarrow> waits step poll i) \<and>
                  \<not> waits step poll k \<and> poll_loop step poll k = Some r", OF _ assms])
  fix loop :: "(pyval \<Rightarrow> exn + pyval option) \<Rightarrow> (nat \<Rightarrow> exn + pyval) \<Rightarrow> nat \<Rightarrow> (exn + pyval) option"
  fix step poll n r
  assume IH: "\<And>step poll n r. loop step poll n = Some r \<Longrightarrow>
                \<exists>k\<ge>n. (\<forall>i. n \<le> i \<and> i < k \<longrightarrow> waits step poll i) \<and> \<not> waits step poll k \<and>
                  poll_loop step poll k = Some r"
    and eq: "(case poll n of
                Inl e \<Rightarrow> Some (Inl e)
              | Inr result \<Rightarrow>
                  (case step result of
                     Inl e \<Rightarrow> Some (Inl e)
                   | Inr None \<Rightarrow> loop step poll (Suc n)
                   | Inr (Some v) \<Rightarrow> Some (Inr v))) = Some r"
  show "\<exists>k\<ge>n. (\<forall>i. n \<le> i \<and> i < k \<longrightarrow> waits step poll i) \<and> \<not> waits step poll k \<and>
           poll_loop step poll k = Some r"
  proof (cases "waits step poll n")
    case True
    then have "loop step poll (Suc n) = Some r"
      using eq by (auto simp: waits_def split: sum.splits option.splits)
    from IH [OF this] obtain k where k: "Suc n \<le> k"
        "\<forall>i. Suc n \<le> i \<and> i < k \<longrightarrow> waits step poll i" "\<not> waits step poll k"
        "poll_loop step poll k = Some r"
      by blast
    have "waits step poll i" if "n \<le> i \<and> i < k" for i
    proof (cases "i = n")
      case True
      with \<open>waits step poll n\<close> show ?thesis by simp
    next
      case False
      with that have "Suc n \<le> i \<and> i < k" by simp
      with k(2) show ?thesis by blast
    qed
    with k show ?thesis
      by (intro exI [of _ k]) simp
  next
    case False
    have "poll_loop step poll n = Some r"
    proof (cases "poll n")
      case (Inl e)
      with eq show ?thesis
        by (subst poll_loop.simps) auto
    next
      case (Inr v)
      show ?thesis
      proof (cases "step v")
        case (Inl e)
        with Inr eq show ?thesis
          by (subst poll_loop.simps) auto
      next
        case (Inr x)
        with \<open>poll n = Inr v\<close> False obtain y where "x = Some y"
          by (cases x) (auto simp: waits_def)
        with Inr \<open>poll n = Inr v\<close> eq show ?thesis
          by (subst poll_loop.simps) auto
      qed
    qed
    with False show ?thesis
      by (intro exI [of _ n]) auto
  qed
qed

lemma poll_loop_forever:
  assumes "\<forall>i\<ge>n. waits step poll i"
  shows "poll_loop step poll n = None"
proof (cases "poll_loop step poll n")
  case None
  then show ?thesis .
next
  case (Some r)
  from poll_loop_Some [OF this] assms show ?thesis
    by blast
qed

lemma submission_step_None_iff: "submission_step v = Inr None \<longleftrightarrow> unfinished v"
  by (cases v) (auto simp: submission_step_def unfinished_def split: sum.splits)

lemma waits_submission_step:
  "waits submission_step poll i \<longleftrightarrow> (\<exists>v. poll i = Inr v \<and> unfinished v)"
  by (auto simp: waits_def submission_step_None_iff [symmetric] split: sum.splits option.splits)

lemma submission_step_finished:
  assumes "truthy (dict_get d (py ''processing_finished'') PNone)"
    and "dict_get d (py ''jobs'') (PList []) = PList jobs"
  shows "submission_step (PDict d) =
           Inr (Some (case jobs of
                        [] \<Rightarrow> PList []
                      | j # rest \<Rightarrow> if j \<noteq> PNone then PList jobs else PList []))"
  using assms by (cases jobs) (simp_all add: submission_step_def)

text \<open>Which entry the loop of \<open>run_client\<close> ends with: the one before which every entry
  is null; and none when every entry is null.\<close>

lemma first_job_skip: "set pre \<subseteq> {PNone} \<Longrightarrow> first_job (pre @ jobs) = first_job jobs"
  by (induction pre) auto

lemma first_job_first:
  "set pre \<subseteq> {PNone} \<Longrightarrow> j \<noteq> PNone \<Longrightarrow> first_job (pre @ j # post) = Some j"
  by (simp add: first_job_skip)

lemma first_job_all_null: "set jobs \<subseteq> {PNone} \<Longrightarrow> first_job jobs = None"
  by (induction jobs) auto

lemma first_job_Some_iff:
  "first_job jobs = Some j \<longleftrightarrow>
     (\<exists>pre post. jobs = pre @ j # post \<and> set pre \<subseteq> {PNone} \<and> j \<noteq> PNone)"
proof
  show "\<exists>pre post. jobs = pre @ j # post \<and> set pre \<subseteq> {PNone} \<and> j \<noteq> PNone"
    if "first_job jobs = Some j"
    using that
  proof (induction jobs)
    case Nil
    then show ?case by simp
  next
    case (Cons x jobs)
    show ?case
    proof (cases "x = PNone")
      case True
      with Cons obtain pre post where "jobs = pre @ j # post" "set pre \<subseteq> {PNone}" "j \<noteq> PNone"
        by auto
      with True have "x # jobs = (x # pre) @ j # post \<and> set (x # pre) \<subseteq> {PNone} \<and> j \<noteq> PNone"
        by simp
      then show ?thesis by blast
    next
      case False
      with Cons.prems have "x # jobs = [] @ j # jobs \<and> set [] \<subseteq> {PNone} \<and> j \<noteq> PNone"
        by simp
      then show ?thesis by blast
    qed
  qed
next
  show "first_job jobs = Some j"
    if "\<exists>pre post. jobs = pre @ j # post \<and> set pre \<subseteq> {PNone} \<and> j \<noteq> PNone"
    using that first_job_first by blast
qed

lemma poll_loop_return:
  "poll k = Inr v \<Longrightarrow> step v = Inr (Some x) \<Longrightarrow> poll_loop step poll k = Some (Inr x)"
  by (subst poll_loop.simps) simp

lemma poll_loop_continue:
  "poll k = Inr v \<Longrightarrow> step v = Inr None \<Longrightarrow> poll_loop step poll k = poll_loop step poll (Suc k)"
  by (subst poll_loop.simps) simp

lemma discover_job_finished:
  assumes "\<forall>i. n \<le> i \<and> i < n + m \<longrightarrow> (\<exists>v. poll i = Inr v \<and> unfinished v)"
    and "poll (n + m) = Inr (PDict d)"
    and "truthy (dict_get d (py ''processing_finished'') PNone)"
    and "dict_get d (py ''jobs'') (PList []) = PList jobs"
  shows "discover_job poll n =
           Some (Inr (case jobs of
                        [] \<Rightarrow> SUBMISSION_EMPTY
                      | j # rest \<Rightarrow> if j \<noteq> PNone then JOB_DISCOVERED j else SUBMISSION_EMPTY))"
proof -
  have "poll_loop submission_step poll n = poll_loop submission_step poll (n + m)"
    using assms(1) by (intro poll_loop_waits) (simp add: waits_submission_step)
  also have "\<dots> = Some (Inr (case jobs of
                                [] \<Rightarrow> PList []
                              | j # rest \<Rightarrow> if j \<noteq> PNone then PList jobs else PList []))"
    using assms(2) submission_step_finished [OF assms(3,4)] by (rule poll_loop_return)
  finally show ?thesis
    by (cases jobs) (simp_all add: discover_job_def wait_for_submission_def)
qed

lemma run_client_wait_step:
  assumes "poll k = Inr (PDict d)"
    and "dict_get d (py ''jobs'') (PList []) = PList jobs"
  shows "run_client_wait poll k =
           (case first_job jobs of
              Some j \<Rightarrow> Some (Inr j)
            | None \<Rightarrow> run_client_wait poll (Suc k))"
proof -
  have "run_client_step (PDict d) = Inr (first_job jobs)"
    using assms(2) by (simp add: run_client_step_def)
  then show ?thesis
    using assms(1) unfolding run_client_wait_def
    by (cases "first_job jobs") (simp_all add: poll_loop_return poll_loop_continue)
qed

text \<open>
  Claim C3, as the code has it, for a response \<open>n + m\<close> whose \<open>processing_finished\<close> is
  true (or any other value that counts as true) and whose job list is \<open>jobs\<close>.
  \<open>wait_for_submission\<close>, started at \<open>n\<close> with unfinished responses before \<open>n + m\<close>,
  returns, and \<open>main\<close> finds a job exactly when the first entry of the list is not
  null, that entry; an empty list and a list whose first entry is null (so also an
  all-null list) give \<open>SUBMISSION_EMPTY\<close>, as a returned value.  The loop of
  \<open>run_client\<close>, when it polls this response, returns the entry \<open>j\<close> that is not null
  and has only null entries before it, wherever it stands in the list; when every entry
  is null (or there is none) it goes on to the next poll.
\<close>

theorem finished_submission_outcome:
  assumes "\<forall>i. n \<le> i \<and> i < n + m \<longrightarrow> (\<exists>v. poll i = Inr v \<and> unfinished v)"
    and "poll (n + m) = Inr (PDict d)"
    and "truthy (dict_get d (py ''processing_finished'') PNone)"
    and "dict_get d (py ''jobs'') (PList []) = PList jobs"
  shows "discover_job poll n =
           Some (Inr (case jobs of
                        [] \<Rightarrow> SUBMISSION_EMPTY
                      | j # rest \<Rightarrow> if j \<noteq> PNone then JOB_DISCOVERED j else SUBMISSION_EMPTY)) \<and>
         (\<forall>pre j post. jobs = pre @ j # post \<and> set pre \<subseteq> {PNone} \<and> j \<noteq> PNone \<longrightarrow>
            run_client_wait poll (n + m) = Some (Inr j)) \<and>
         (set jobs \<subseteq> {PNone} \<longrightarrow>
            run_client_wait poll (n + m) = run_client_wait poll (Suc (n + m)))"
proof -
  have step: "run_client_wait poll (n + m) =
           (case first_job jobs of
              Some j \<Rightarrow> Some (Inr j)
            | None \<Rightarrow> run_client_wait poll (Suc (n + m)))"
    by (rule run_client_wait_step [of poll "n + m" d jobs, OF assms(2,4)])
  have "run_client_wait poll (n + m) = Some (Inr j)"
    if "jobs = pre @ j # post \<and> set pre \<subseteq> {PNone} \<and> j \<noteq> PNone" for pre j post
    using that step by (simp add: first_job_first)
  moreover have "run_client_wait poll (n + m) = run_client_wait poll (Suc (n + m))"
    if "set jobs \<subseteq> {PNone}"
    using that step by (simp add: first_job_all_null)
  ultimately show ?thesis
    using discover_job_finished [OF assms] by blast
qed

lemma py_jobs_neq: "py ''jobs'' \<noteq> py ''processing_finished''"
  by (simp add: py_def)

theorem finished_submission_outcome_witness:
  "pending_then_finished (0 + 2) =
     Inr (PDict [(py ''processing_finished'', PBool True), (py ''jobs'', PList [PInt 7, PNone])]) \<and>
   truthy (dict_get [(py ''processing_finished'', PBool True), (py ''jobs'', PList [PInt 7, PNone])]
             (py ''processing_finished'') PNone) \<and>
   dict_get [(py ''processing_finished'', PBool True), (py ''jobs'', PList [PInt 7, PNone])]
     (py ''jobs'') (PList []) = PList [PInt 7, PNone] \<and>
   discover_job pending_then_finished 0 = Some (Inr (JOB_DISCOVERED (PInt 7))) \<and>
   run_client_wait pending_then_finished 2 = Some (Inr (PInt 7)) \<and>
   discover_job two_jobs_poll 0 = Some (Inr SUBMISSION_EMPTY) \<and>
   run_client_wait two_jobs_poll 0 = Some (Inr (PInt 5)) \<and>
   discover_job all_null_poll 0 = Some (Inr SUBMISSION_EMPTY) \<and>
   run_client_wait all_null_poll 0 = run_client_wait all_null_poll 1"
proof -
  let ?d = "[(py ''processing_finished'', PBool True), (py ''jobs'', PList [PInt 7, PNone])]"
  have h1: "\<forall>i. 0 \<le> i \<and> i < 0 + 2 \<longrightarrow> (\<exists>v. pending_then_finished i = Inr v \<and> unfinished v)"
    by (simp add: pending_then_finished_def unfinished_def dict_get_def)
  have h2: "pending_then_finished (0 + 2) = Inr (PDict ?d)"
    by (simp add: pending_then_finished_def)
  have h3: "truthy (dict_get ?d (py ''processing_finished'') PNone)"
    by (simp add: dict_get_def)
  have h4: "dict_get ?d (py ''jobs'') (PList []) = PList [PInt 7, PNone]"
    using py_jobs_neq by (simp add: dict_get_def)
  note a = finished_submission_outcome [of 0 2 pending_then_finished, OF h1 h2 h3 h4]
  have a1: "discover_job pending_then_finished 0 = Some (Inr (JOB_DISCOVERED (PInt 7)))"
    using a by simp
  have "[PInt 7, PNone] = [] @ PInt 7 # [PNone] \<and> set [] \<subseteq> {PNone} \<and> PInt 7 \<noteq> PNone"
    by simp
  with a have "run_client_wait pending_then_finished (0 + 2) = Some (Inr (PInt 7))"
    by blast
  then have a2: "run_client_wait pending_then_finished 2 = Some (Inr (PInt 7))"
    by (simp add: numeral_2_eq_2)
  let ?t = "[(py ''processing_finished'', PBool True), (py ''jobs'', PList [PNone, PInt 5, PInt 9])]"
  have t1: "\<forall>i. 0 \<le> i \<and> i < 0 + 0 \<longrightarrow> (\<exists>v. two_jobs_poll i = Inr v \<and> unfinished v)"
    by simp
  have t2: "two_jobs_poll (0 + 0) = Inr (PDict ?t)"
    by (simp add: two_jobs_poll_def)
  have t3: "truthy (dict_get ?t (py ''processing_finished'') PNone)"
    by (simp add: dict_get_def)
  have t4: "dict_get ?t (py ''jobs'') (PList []) = PList [PNone, PInt 5, PInt 9]"
    using py_jobs_neq by (simp add: dict_get_def)
  note b = finished_submission_outcome [of 0 0 two_jobs_poll, OF t1 t2 t3 t4]
  have b1: "discover_job two_jobs_poll 0 = Some (Inr SUBMISSION_EMPTY)"
    using b by simp
  have "[PNone, PInt 5, PInt 9] = [PNone] @ PInt 5 # [PInt 9] \<and> set [PNone] \<subseteq> {PNone} \<and>
        PInt 5 \<noteq> PNone"
    by simp
  with b have "run_client_wait two_jobs_poll (0 + 0) = Some (Inr (PInt 5))"
    by blast
  then have b2: "run_client_wait two_jobs_poll 0 = Some (Inr (PInt 5))"
    by simp
  let ?e = "[(py ''processing_finished'', PBool True), (py ''jobs'', PList [PNone])]"
  have g1: "\<forall>i. 0 \<le> i \<and> i < 0 + 0 \<longrightarrow> (\<exists>v. all_null_poll i = Inr v \<and> unfinished v)"
    by simp
  have g2: "all_null_poll (0 + 0) = Inr (PDict ?e)"
    by (simp add: all_null_poll_def)
  have g3: "truthy (dict_get ?e (py ''processing_finished'') PNone)"
    by (simp add: dict_get_def)
  have g4: "dict_get ?e (py ''jobs'') (PList []) = PList [PNone]"
    using py_jobs_neq by (simp add: dict_get_def)
  note c = finished_submission_outcome [of 0 0 all_null_poll, OF g1 g2 g3 g4]
  have c1: "discover_job all_null_poll 0 = Some (Inr SUBMISSION_EMPTY)"
    using c by simp
  have c2: "run_client_wait all_null_poll 0 = run_client_wait all_null_poll 1"
    using c by simp
  show ?thesis
    using h2 h3 h4 a1 a2 b1 b2 c1 c2 by simp
qed

text \<open>
  A finished response with the job list \<open>[null, 5]\<close> has the first non-null entry 5, and
  \<open>main\<close> reports \<open>SUBMISSION_EMPTY\<close>.  On finished responses that all list \<open>[null]\<close>
  the loop of \<open>run_client\<close> never returns.
\<close>

theorem first_non_null_job_not_selected:
  "first_job [PNone, PInt 5] = Some (PInt 5) \<and>
   discover_job null_then_job_poll 0 = Some (Inr SUBMISSION_EMPTY) \<and>
   run_client_wait all_null_poll 0 = None"
proof -
  have "submission_step (PDict [(py ''processing_finished'', PBool True),
                                (py ''jobs'', PList [PNone, PInt 5])]) = Inr (Some (PList []))"
    using py_jobs_neq by (simp add: submission_step_def dict_get_def)
  then have "poll_loop submission_step null_then_job_poll 0 = Some (Inr (PList []))"
    by (intro poll_loop_return) (simp_all add: null_then_job_poll_def)
  then have "discover_job null_then_job_poll 0 = Some (Inr SUBMISSION_EMPTY)"
    by (simp add: discover_job_def wait_for_submission_def)
  moreover have "run_client_step (PDict [(py ''processing_finished'', PBool True),
                                          (py ''jobs'', PList [PNone])]) = Inr None"
    using py_jobs_neq by (simp add: run_client_step_def dict_get_def)
  then have "\<forall>i\<ge>0. waits run_client_step all_null_poll i"
    by (simp add: waits_def all_null_poll_def)
  then have "run_client_wait all_null_poll 0 = None"
    unfolding run_client_wait_def by (rule poll_loop_forever)
  ultimately show ?thesis by simp
qed

lemma map_of_dict_set:
  "map_of (dict_set key v d) k = (if k = key then Some v else map_of d k)"
  by (induction d) auto

lemma run_client_step_ignores_finished:
  "run_client_step (PDict (dict_set (py ''processing_finished'') v d)) = run_client_step (PDict d)"
  using py_jobs_neq by (simp add: run_client_step_def dict_get_def map_of_dict_set)

lemma submission_step_Some:
  assumes "submission_step v = Inr (Some job_ids)" and "truthy job_ids"
  shows "\<exists>d. v = PDict d \<and> truthy (dict_get d (py ''processing_finished'') PNone) \<and>
             job_ids = dict_get d (py ''jobs'') (PList []) \<and>
             (\<exists>j. subscript0 job_ids = Inr j \<and> j \<noteq> PNone)"
  using assms
  by (cases v) (auto simp: submission_step_def split: sum.splits if_splits)

text \<open>
  Claim C4, as the code has it.  When \<open>main\<close> of astrometry_solver.py has a job, some
  response \<open>k\<close> held a \<open>processing_finished\<close> that counts as true (the value \<open>true\<close>,
  and as well a number other than 0 or a string that is not empty: the code tests the
  truth value, not the value), the job is the first entry of that response's list, and
  every response before \<open>k\<close> was unfinished.  The loop of \<open>run_client\<close> does not read
  \<open>processing_finished\<close>: whatever is stored under that key, the body of the loop does the
  same; and at any response whose job list has an entry that is not null, it returns
  the first such entry, with no condition on \<open>processing_finished\<close>.
\<close>

theorem job_discovered_only_when_finished:
  assumes "discover_job poll n = Some (Inr (JOB_DISCOVERED j))"
  shows "(\<exists>k\<ge>n. \<exists>d.
            poll k = Inr (PDict d) \<and>
            truthy (dict_get d (py ''processing_finished'') PNone) \<and>
            subscript0 (dict_get d (py ''jobs'') (PList [])) = Inr j \<and> j \<noteq> PNone \<and>
            (\<forall>i. n \<le> i \<and> i < k \<longrightarrow> (\<exists>v. poll i = Inr v \<and> unfinished v))) \<and>
         (\<forall>v d. run_client_step (PDict (dict_set (py ''processing_finished'') v d))
                  = run_client_step (PDict d)) \<and>
         (\<forall>p k d pre j' post.
            p k = Inr (PDict d) \<and>
            dict_get d (py ''jobs'') (PList []) = PList (pre @ j' # post) \<and>
            set pre \<subseteq> {PNone} \<and> j' \<noteq> PNone \<longrightarrow>
            run_client_wait p k = Some (Inr j'))"
proof -
  from assms obtain job_ids where w: "poll_loop submission_step poll n = Some (Inr job_ids)"
      and t: "truthy job_ids" and j: "subscript0 job_ids = Inr j"
    by (auto simp: discover_job_def wait_for_submission_def
        split: option.splits sum.splits if_splits)
  from poll_loop_Some [OF w] obtain k where k: "n \<le> k"
      and before: "\<forall>i. n \<le> i \<and> i < k \<longrightarrow> waits submission_step poll i"
      and stop: "\<not> waits submission_step poll k"
      and at: "poll_loop submission_step poll k = Some (Inr job_ids)"
    by blast
  from at stop obtain v where v: "poll k = Inr v" and s: "submission_step v = Inr (Some job_ids)"
    by (subst (asm) poll_loop.simps) (auto simp: waits_def split: sum.splits option.splits)
  from submission_step_Some [OF s t] j obtain d where "v = PDict d"
      "truthy (dict_get d (py ''processing_finished'') PNone)"
      "subscript0 (dict_get d (py ''jobs'') (PList [])) = Inr j" "j \<noteq> PNone"
    by auto
  with k v before have "\<exists>k\<ge>n. \<exists>d.
            poll k = Inr (PDict d) \<and>
            truthy (dict_get d (py ''processing_finished'') PNone) \<and>
            subscript0 (dict_get d (py ''jobs'') (PList [])) = Inr j \<and> j \<noteq> PNone \<and>
            (\<forall>i. n \<le> i \<and> i < k \<longrightarrow> (\<exists>v. poll i = Inr v \<and> unfinished v))"
    unfolding waits_submission_step by blast
  moreover have "run_client_wait p k = Some (Inr j')"
    if "p k = Inr (PDict d) \<and>
        dict_get d (py ''jobs'') (PList []) = PList (pre @ j' # post) \<and>
        set pre \<subseteq> {PNone} \<and> j' \<noteq> PNone"
    for p :: "nat \<Rightarrow> exn + pyval" and k d pre j' post
  proof -
    from that have "run_client_wait p k =
           (case first_job (pre @ j' # post) of
              Some j \<Rightarrow> Some (Inr j)
            | None \<Rightarrow> run_client_wait p (Suc k))"
      by (intro run_client_wait_step [of p k d]) simp_all
    with that show ?thesis
      by (simp add: first_job_first)
  qed
  ultimately show ?thesis
    using run_client_step_ignores_finished by blast
qed

lemma pending_then_finished_discovery:
  "discover_job pending_then_finished 0 = Some (Inr (JOB_DISCOVERED (PInt 7)))"
proof -
  let ?d = "[(py ''processing_finished'', PBool True), (py ''jobs'', PList [PInt 7, PNone])]"
  have h1: "\<forall>i. 0 \<le> i \<and> i < 0 + 2 \<longrightarrow> (\<exists>v. pending_then_finished i = Inr v \<and> unfinished v)"
    by (simp add: pending_then_finished_def unfinished_def dict_get_def)
  have h2: "pending_then_finished (0 + 2) = Inr (PDict ?d)"
    by (simp add: pending_then_finished_def)
  have h3: "truthy (dict_get ?d (py ''processing_finished'') PNone)"
    by (simp add: dict_get_def)
  have h4: "dict_get ?d (py ''jobs'') (PList []) = PList [PInt 7, PNone]"
    using py_jobs_neq by (simp add: dict_get_def)
  show ?thesis
    using discover_job_finished [of 0 2 pending_then_finished, OF h1 h2 h3 h4] by simp
qed

lemma finished_as_one_discovery:
  "discover_job finished_as_one_poll 0 = Some (Inr (JOB_DISCOVERED (PInt 7)))"
proof -
  let ?d = "[(py ''processing_finished'', PInt 1), (py ''jobs'', PList [PInt 7])]"
  have h1: "\<forall>i. 0 \<le> i \<and> i < 0 + 0 \<longrightarrow> (\<exists>v. finished_as_one_poll i = Inr v \<and> unfinished v)"
    by simp
  have h2: "finished_as_one_poll (0 + 0) = Inr (PDict ?d)"
    by (simp add: finished_as_one_poll_def)
  have h3: "truthy (dict_get ?d (py ''processing_finished'') PNone)"
    by (simp add: dict_get_def)
  have h4: "dict_get ?d (py ''jobs'') (PList []) = PList [PInt 7]"
    using py_jobs_neq by (simp add: dict_get_def)
  show ?thesis
    using discover_job_finished [of 0 0 finished_as_one_poll, OF h1 h2 h3 h4] by simp
qed

theorem job_discovered_only_when_finished_witness:
  "discover_job pending_then_finished 0 = Some (Inr (JOB_DISCOVERED (PInt 7))) \<and>
   (\<exists>k\<ge>0. \<exists>d.
      pending_then_finished k = Inr (PDict d) \<and>
      truthy (dict_get d (py ''processing_finished'') PNone) \<and>
      subscript0 (dict_get d (py ''jobs'') (PList [])) = Inr (PInt 7) \<and> PInt 7 \<noteq> PNone) \<and>
   discover_job finished_as_one_poll 0 = Some (Inr (JOB_DISCOVERED (PInt 7))) \<and>
   (\<exists>k\<ge>0. \<exists>d.
      finished_as_one_poll k = Inr (PDict d) \<and>
      truthy (dict_get d (py ''processing_finished'') PNone) \<and>
      subscript0 (dict_get d (py ''jobs'') (PList [])) = Inr (PInt 7)) \<and>
   run_client_wait unfinished_two_jobs_poll 0 = Some (Inr (PInt 5))"
proof -
  note a = job_discovered_only_when_finished [OF pending_then_finished_discovery]
  note b = job_discovered_only_when_finished [OF finished_as_one_discovery]
  have "unfinished_two_jobs_poll 0 =
          Inr (PDict [(py ''processing_finished'', PBool False),
                      (py ''jobs'', PList [PNone, PInt 5, PInt 9])]) \<and>
        dict_get [(py ''processing_finished'', PBool False),
                  (py ''jobs'', PList [PNone, PInt 5, PInt 9])] (py ''jobs'') (PList [])
          = PList ([PNone] @ PInt 5 # [PInt 9]) \<and>
        set [PNone] \<subseteq> {PNone} \<and> PInt 5 \<noteq> PNone"
    using py_jobs_neq by (simp add: unfinished_two_jobs_poll_def dict_get_def)
  with a have c: "run_client_wait unfinished_two_jobs_poll 0 = Some (Inr (PInt 5))"
    by blast
  from a have a1: "\<exists>k\<ge>0. \<exists>d.
      pending_then_finished k = Inr (PDict d) \<and>
      truthy (dict_get d (py ''processing_finished'') PNone) \<and>
      subscript0 (dict_get d (py ''jobs'') (PList [])) = Inr (PInt 7) \<and> PInt 7 \<noteq> PNone"
    by blast
  from b have b1: "\<exists>k\<ge>0. \<exists>d.
      finished_as_one_poll k = Inr (PDict d) \<and>
      truthy (dict_get d (py ''processing_finished'') PNone) \<and>
      subscript0 (dict_get d (py ''jobs'') (PList [])) = Inr (PInt 7)"
    by blast
  show ?thesis
    using pending_then_finished_discovery finished_as_one_discovery a1 b1 c by blast
qed

text \<open>
  Responses that never report \<open>processing_finished\<close> but list the job 5: the loop of
  \<open>run_client\<close> selects job 5 at the first response, while \<open>wait_for_submission\<close> on
  the same responses never returns.
\<close>

theorem run_client_selects_before_finished:
  "run_client_wait unfinished_with_job_poll 0 = Some (Inr (PInt 5)) \<and>
   discover_job unfinished_with_job_poll 0 = None"
proof -
  let ?v = "PDict [(py ''processing_finished'', PBool False), (py ''jobs'', PList [PInt 5])]"
  have "run_client_step ?v = Inr (Some (PInt 5))"
    using py_jobs_neq by (simp add: run_client_step_def dict_get_def)
  then have "run_client_wait unfinished_with_job_poll 0 = Some (Inr (PInt 5))"
    unfolding run_client_wait_def
    by (intro poll_loop_return) (simp_all add: unfinished_with_job_poll_def)
  moreover have "unfinished ?v"
    by (simp add: unfinished_def dict_get_def)
  then have "\<forall>i\<ge>0. waits submission_step unfinished_with_job_poll i"
    by (simp add: waits_submission_step unfinished_with_job_poll_def)
  then have "poll_loop submission_step unfinished_with_job_poll 0 = None"
    by (rule poll_loop_forever)
  then have "discover_job unfinished_with_job_poll 0 = None"
    by (simp add: discover_job_def wait_for_submission_def)
  ultimately show ?thesis by simp
qed


end
